theory Spec2Isabelle
  imports Main "HOL-Library.AList" "HOL-Library.Sublist"
begin

section \<open>Account objects\<close>

text \<open>
  The store keeps plain JavaScript objects. Their TypeScript type \<open>User\<close> is declared in
  \<open>../types\<close>; the store itself only names the properties \<open>id\<close>, \<open>loginId\<close>,
  \<open>password\<close>, \<open>points\<close>, \<open>totalEarned\<close>, \<open>status\<close>, \<open>role\<close>, \<open>joinedAt\<close>,
  \<open>lastLogin\<close> and \<open>avatarUrl\<close>, and copies every other property with the spread
  operator. An object is therefore a finite map from property names to values, in two
  sorts: the properties typed \<open>number\<close> (\<open>points\<close>, \<open>totalEarned\<close>) and all others,
  carried as text; TypeScript gives a property name one type, so a name is used in one
  sort only. A property that is absent reads as \<open>undefined\<close>; a property holding
  \<open>undefined\<close> is not told apart from an absent one.

  Numbers are IEEE doubles. The model holds the doubles whose value is an integer
  (\<open>Num n\<close>, for an \<open>n\<close> that a double represents exactly), \<open>NaN\<close> and the two
  infinities; \<open>undefined + 1\<close> is \<open>NaN\<close> in JavaScript, and the store can produce
  it. The sum or difference of two such doubles is the exact integer result rounded to
  the nearest double, ties to the even mantissa. Every integer of magnitude up to
  \<open>2 ^ 53\<close> is a double; the safe integers are those up to \<open>2 ^ 53 - 1\<close>.
\<close>

datatype jsnum = Num int | NaN | PosInf | NegInf

text \<open>\<open>Number.MAX_SAFE_INTEGER\<close> and \<open>Number.isSafeInteger\<close>, on integers.\<close>

definition MAX_SAFE_INTEGER :: int where
  "MAX_SAFE_INTEGER = 9007199254740991"

definition isSafeInteger :: "int \<Rightarrow> bool" where
  "isSafeInteger n = (\<bar>n\<bar> \<le> MAX_SAFE_INTEGER)"

text \<open>
  A double has a mantissa of 53 bits: \<open>dropped_bits m\<close> is the number of low bits of
  \<open>m\<close> that do not fit, and \<open>to_double\<close> rounds them away (to the nearest, ties to
  even). A result of \<open>2 ^ 1024\<close> or more is an infinity.
\<close>

function dropped_bits :: "nat \<Rightarrow> nat" where
  "dropped_bits m = (if m < 9007199254740992 then 0 else Suc (dropped_bits (m div 2)))"
  by pat_completeness auto
termination
  by (relation "measure (\<lambda>m. m)") auto

declare dropped_bits.simps [simp del]

definition to_double :: "int \<Rightarrow> jsnum" where
  "to_double n =
     (let m = nat \<bar>n\<bar>;
          e = dropped_bits m;
          q = m div 2 ^ e;
          r = m mod 2 ^ e;
          q' = (if 2 * r > 2 ^ e \<or> (2 * r = 2 ^ e \<and> odd q) then q + 1 else q);
          v = int (q' * 2 ^ e)
      in if v \<ge> 2 ^ 1024 then (if n < 0 then NegInf else PosInf)
         else Num (if n < 0 then - v else v))"

text \<open>
  \<open>a + b\<close> on numbers: \<open>NaN\<close> is contagious, the sum of the two opposite infinities
  is \<open>NaN\<close>, an infinity absorbs every finite number.
\<close>

fun js_add :: "jsnum \<Rightarrow> jsnum \<Rightarrow> jsnum" where
  "js_add NaN y = NaN"
| "js_add x NaN = NaN"
| "js_add PosInf NegInf = NaN"
| "js_add NegInf PosInf = NaN"
| "js_add PosInf y = PosInf"
| "js_add x PosInf = PosInf"
| "js_add NegInf y = NegInf"
| "js_add x NegInf = NegInf"
| "js_add (Num a) (Num b) = to_double (a + b)"

fun js_neg :: "jsnum \<Rightarrow> jsnum" where
  "js_neg (Num a) = Num (- a)"
| "js_neg NaN = NaN"
| "js_neg PosInf = NegInf"
| "js_neg NegInf = PosInf"

text \<open>\<open>a - b\<close> is \<open>a + (-b)\<close>, also in its rounding.\<close>

definition js_sub :: "jsnum \<Rightarrow> jsnum \<Rightarrow> jsnum" where
  "js_sub x y = js_add x (js_neg y)"

text \<open>\<open>a > b\<close>: every comparison with \<open>NaN\<close> is false.\<close>

fun js_gt :: "jsnum \<Rightarrow> jsnum \<Rightarrow> bool" where
  "js_gt NaN y = False"
| "js_gt x NaN = False"
| "js_gt x PosInf = False"
| "js_gt PosInf y = True"
| "js_gt NegInf y = False"
| "js_gt x NegInf = True"
| "js_gt (Num a) (Num b) = (a > b)"

text \<open>Reading a numeric property in an arithmetic position: \<open>undefined\<close> becomes \<open>NaN\<close>.\<close>

definition toNumber :: "jsnum option \<Rightarrow> jsnum" where
  "toNumber v = (case v of None \<Rightarrow> NaN | Some n \<Rightarrow> n)"

record jsobject =
  numeric :: "string \<rightharpoonup> jsnum"
  textual :: "string \<rightharpoonup> string"

definition empty_object :: jsobject where
  "empty_object = \<lparr>numeric = Map.empty, textual = Map.empty\<rparr>"

text \<open>\<open>{...a, ...b}\<close>: the properties of \<open>b\<close> win.\<close>

definition spread :: "jsobject \<Rightarrow> jsobject \<Rightarrow> jsobject" where
  "spread a b = \<lparr>numeric = numeric a ++ numeric b, textual = textual a ++ textual b\<rparr>"

text \<open>\<open>{...x}\<close> where \<open>x\<close> may be \<open>undefined\<close>: spreading \<open>undefined\<close> adds nothing.\<close>

definition spread_of :: "jsobject option \<Rightarrow> jsobject" where
  "spread_of x = (case x of None \<Rightarrow> empty_object | Some a \<Rightarrow> a)"

text \<open>\<open>const { password, ...rest } = o\<close>: \<open>rest\<close> is \<open>o\<close> without the property \<open>p\<close>.\<close>

definition without :: "string \<Rightarrow> jsobject \<Rightarrow> jsobject" where
  "without p a = \<lparr>numeric = (numeric a)(p := None), textual = (textual a)(p := None)\<rparr>"

definition has_property :: "string \<Rightarrow> jsobject \<Rightarrow> bool" where
  "has_property p a = (numeric a p \<noteq> None \<or> textual a p \<noteq> None)"

text \<open>
  A property key: \<open>users[k]\<close> with \<open>k\<close> undefined reads the property named
  \<open>"undefined"\<close>.
\<close>

definition key_of :: "string option \<Rightarrow> string" where
  "key_of k = (case k of None \<Rightarrow> ''undefined'' | Some s \<Rightarrow> s)"

text \<open>
  The directory \<open>users\<close> is a plain object, and \<open>users[k]\<close> is a property read on it:
  the own property \<open>k\<close> where there is one; otherwise, for a name of
  \<open>Object.prototype\<close>, the inherited member (a function, or the prototype itself for
  \<open>__proto__\<close>), which is truthy, reads as \<open>undefined\<close> for every property the store
  reads and spreads to nothing, so that the empty object stands for it; otherwise
  \<open>undefined\<close>.
\<close>

definition object_prototype :: "string set" where
  "object_prototype =
     {''constructor'', ''hasOwnProperty'', ''isPrototypeOf'', ''propertyIsEnumerable'',
      ''toLocaleString'', ''toString'', ''valueOf'', ''__proto__'',
      ''__defineGetter__'', ''__defineSetter__'', ''__lookupGetter__'',
      ''__lookupSetter__''}"

definition read_row :: "(string \<rightharpoonup> jsobject) \<Rightarrow> string \<Rightarrow> jsobject option" where
  "read_row directory k =
     (case directory k of
        Some row \<Rightarrow> Some row
      | None \<Rightarrow> if k \<in> object_prototype then Some empty_object else None)"

section \<open>The auth store (src/stores/authStore.ts)\<close>

record AuthState =
  user :: "jsobject option"
  users :: "string \<rightharpoonup> jsobject"
  isAuthenticated :: bool
  customIcon :: "string option"

text \<open>
  What an action does outside the store state is the sequence of calls it makes, in
  order. The store is wrapped in zustand's \<open>persist\<close> middleware with the storage
  manager as its storage: every \<open>set\<close> of the store writes the new state under
  \<open>auth-storage\<close>, recorded as \<open>PersistState\<close>.
\<close>

text \<open>
  Modelled from the spec: \<open>authManager\<close> (\<open>../utils/auth\<close>, not among the sources) is
  the collaborator \<open>CredentialStore\<close> of the specification, which also persists the account
  rows. Its calls \<open>addCredential\<close>, \<open>saveUser\<close> and \<open>reset\<close> return normally; they
  are recorded with their arguments, not carried out. The result of \<open>getUsers\<close> is a
  parameter of \<open>reset\<close>.
\<close>

datatype call =
    AddCredential "string option" "string option"
  | SaveUser jsobject
  | ResetCredentials
  | PersistState AuthState

datatype error = TypeError

definition login :: "string \<Rightarrow> jsobject \<Rightarrow> AuthState \<Rightarrow> AuthState \<times> call list" where
  "login now userData s =
     (let currentUsers = users s;
          k = key_of (textual userData ''id'');
          base = spread_of (read_row currentUsers k);
          updatedUser = base\<lparr>textual := (textual base)(''lastLogin'' \<mapsto> now)\<rparr>;
          s' = s\<lparr>user := Some updatedUser,
                 users := currentUsers(k \<mapsto> updatedUser),
                 isAuthenticated := True\<rparr>
      in (s', [PersistState s', SaveUser updatedUser]))"

definition logout :: "AuthState \<Rightarrow> AuthState \<times> call list" where
  "logout s =
     (let s' = s\<lparr>user := None, isAuthenticated := False\<rparr> in (s', [PersistState s']))"

text \<open>
  \<open>updates\<close> is taken without properties that hold \<open>undefined\<close>: the object model
  does not tell them from absent ones.
\<close>

definition updateProfile :: "jsobject \<Rightarrow> AuthState \<Rightarrow> AuthState \<times> call list" where
  "updateProfile updates s =
     (case user s of
        None \<Rightarrow> (s, [])
      | Some active \<Rightarrow>
          (let k = key_of (textual active ''id'');
               updatedUser = spread (spread_of (read_row (users s) k)) updates;
               s' = s\<lparr>user := Some updatedUser, users := (users s)(k \<mapsto> updatedUser)\<rparr>
           in (s', [PersistState s', SaveUser updatedUser])))"

definition updateIcon :: "string \<Rightarrow> AuthState \<Rightarrow> AuthState \<times> call list" where
  "updateIcon base64 s =
     (let s' = s\<lparr>customIcon := Some base64\<rparr> in (s', [PersistState s']))"

definition updateAvatar :: "string \<Rightarrow> AuthState \<Rightarrow> AuthState \<times> call list" where
  "updateAvatar avatarUrl s =
     (case user s of
        None \<Rightarrow> (s, [])
      | Some active \<Rightarrow>
          (let k = key_of (textual active ''id'');
               base = spread_of (read_row (users s) k);
               updatedUser = base\<lparr>textual := (textual base)(''avatarUrl'' \<mapsto> avatarUrl)\<rparr>;
               s' = s\<lparr>user := Some updatedUser, users := (users s)(k \<mapsto> updatedUser)\<rparr>
           in (s', [PersistState s', SaveUser updatedUser])))"

text \<open>
  \<open>updatePoints\<close> reads \<open>get().users[get().user!.id].totalEarned\<close>: when
  \<open>users[id]\<close> is \<open>undefined\<close>, that is a property read on \<open>undefined\<close>, which
  throws a \<open>TypeError\<close> before anything is written. The argument \<open>points\<close> is a
  number of integer value.
\<close>

definition updatePoints :: "int \<Rightarrow> AuthState \<Rightarrow> error + AuthState \<times> call list" where
  "updatePoints points s =
     (case user s of
        None \<Rightarrow> Inr (s, [])
      | Some active \<Rightarrow>
          (let k = key_of (textual active ''id'') in
           case read_row (users s) k of
             None \<Rightarrow> Inl TypeError
           | Some row \<Rightarrow>
               (let updatedUser = row\<lparr>numeric := (numeric row)
                      (''points'' \<mapsto> Num points,
                       ''totalEarned'' \<mapsto>
                          js_add (toNumber (numeric row ''totalEarned'')) (Num points))\<rparr>;
                    s' = s\<lparr>user := Some updatedUser, users := (users s)(k \<mapsto> updatedUser)\<rparr>
                in Inr (s', [PersistState s', SaveUser updatedUser]))))"

text \<open>\<open>get().user?.id === userId\<close>\<close>

definition is_active :: "AuthState \<Rightarrow> string \<Rightarrow> bool" where
  "is_active s userId =
     (case user s of None \<Rightarrow> False | Some active \<Rightarrow> textual active ''id'' = Some userId)"

definition updateUserPoints :: "string \<Rightarrow> int \<Rightarrow> AuthState \<Rightarrow> AuthState \<times> call list" where
  "updateUserPoints userId points s =
     (case read_row (users s) userId of
        None \<Rightarrow> (s, [])
      | Some currentUser \<Rightarrow>
          (let current = toNumber (numeric currentUser ''points'');
               updatedUser = currentUser\<lparr>numeric := (numeric currentUser)
                 (''points'' \<mapsto> Num (max 0 points),
                  ''totalEarned'' \<mapsto>
                     js_add (toNumber (numeric currentUser ''totalEarned''))
                       (if js_gt (Num points) current then js_sub (Num points) current
                        else Num 0))\<rparr>;
               s' = s\<lparr>users := (users s)(userId \<mapsto> updatedUser),
                      user := (if is_active s userId then Some updatedUser else user s)\<rparr>
           in (s', [PersistState s', SaveUser updatedUser])))"

definition getUser :: "string \<Rightarrow> AuthState \<Rightarrow> jsobject option" where
  "getUser userId s = read_row (users s) userId"

text \<open>
  \<open>registerUser\<close> builds the account from the input without its \<open>password\<close>; the
  properties written after the spread overwrite those of the input. It returns the new
  account.
\<close>

definition registerUser ::
    "string \<Rightarrow> jsobject \<Rightarrow> AuthState \<Rightarrow> jsobject \<times> AuthState \<times> call list" where
  "registerUser now userData s =
     (let password = textual userData ''password'';
          userDataWithoutPassword = without ''password'' userData;
          newUser =
            \<lparr>numeric = (numeric userDataWithoutPassword)
               (''points'' \<mapsto> Num 0, ''totalEarned'' \<mapsto> Num 0),
             textual = (textual userDataWithoutPassword)
               (''id'' := textual userData ''loginId'',
                ''status'' \<mapsto> ''active'',
                ''joinedAt'' \<mapsto> now,
                ''role'' \<mapsto> ''worker'')\<rparr>;
          s' = s\<lparr>users := (users s)(key_of (textual newUser ''id'') \<mapsto> newUser)\<rparr>
      in (newUser, s',
          [AddCredential (textual userData ''loginId'') password,
           SaveUser newUser,
           PersistState s']))"

definition reset :: "(string \<rightharpoonup> jsobject) \<Rightarrow> AuthState \<Rightarrow> AuthState \<times> call list" where
  "reset getUsers s =
     (let s' = \<lparr>user = None, users = getUsers, isAuthenticated = False, customIcon = None\<rparr>
      in (s', [ResetCredentials, PersistState s']))"

text \<open>Observations of one directory row, used to state the ledger properties.\<close>

definition points_of :: "AuthState \<Rightarrow> string \<Rightarrow> jsnum option" where
  "points_of s k = (case users s k of None \<Rightarrow> None | Some a \<Rightarrow> numeric a ''points'')"

definition totalEarned_of :: "AuthState \<Rightarrow> string \<Rightarrow> jsnum option" where
  "totalEarned_of s k = (case users s k of None \<Rightarrow> None | Some a \<Rightarrow> numeric a ''totalEarned'')"

text \<open>The state an action leaves behind; \<open>None\<close> when it threw.\<close>

definition state_after :: "error + AuthState \<times> call list \<Rightarrow> AuthState option" where
  "state_after r = (case r of Inl e \<Rightarrow> None | Inr (s, calls) \<Rightarrow> Some s)"

section \<open>The two storage tiers\<close>

text \<open>
  \<open>localStorage\<close> (the primary tier) and \<open>sessionStorage\<close> (the secondary tier) are
  browser \<open>Storage\<close> objects: an ordered list of entries, enumerated by \<open>key(i)\<close> for
  \<open>i < length\<close>. \<open>setItem\<close> replaces the value of a key in place or appends a new
  entry, and throws (quota exceeded, storage disabled) where the browser refuses the
  write; which writes a tier refuses is its \<open>accepts\<close> predicate, asked with the
  entries the tier holds at that moment. A refused write changes nothing.
\<close>

record Storage =
  items :: "(string \<times> string) list"
  accepts :: "(string \<times> string) list \<Rightarrow> string \<Rightarrow> string \<Rightarrow> bool"

definition getItem :: "Storage \<Rightarrow> string \<Rightarrow> string option" where
  "getItem st k = map_of (items st) k"

definition setItem :: "Storage \<Rightarrow> string \<Rightarrow> string \<Rightarrow> Storage option" where
  "setItem st k v =
     (if accepts st (items st) k v then Some (st\<lparr>items := AList.update k v (items st)\<rparr>)
      else None)"

definition storage_keys :: "Storage \<Rightarrow> string list" where
  "storage_keys st = map fst (items st)"

record Tiers =
  localStorage :: Storage
  sessionStorage :: Storage

text \<open>
  A block inside \<open>try\<close>: it runs to its end, or a write throws and the block is left
  with the writes made so far.
\<close>

datatype 'a attempt = Completed 'a | Threw 'a

fun state_of :: "'a attempt \<Rightarrow> 'a" where
  "state_of (Completed x) = x"
| "state_of (Threw x) = x"

text \<open>
  Both loops of \<open>sync\<close> have one shape: for every \<open>key(i)\<close> of the source tier that is
  a non-empty string (\<open>if (key)\<close>) and that the pass wants, read its value and, when the
  value is a non-empty string (\<open>if (value)\<close>), write it to the other tier. The source
  tier is not written while it is enumerated.
\<close>

fun copy_entries ::
    "(string \<Rightarrow> bool) \<Rightarrow> Storage \<Rightarrow> string list \<Rightarrow> Storage \<Rightarrow> Storage attempt" where
  "copy_entries wanted src [] dst = Completed dst"
| "copy_entries wanted src (key # rest) dst =
     (if key \<noteq> [] \<and> wanted key then
        (case getItem src key of
           None \<Rightarrow> copy_entries wanted src rest dst
         | Some v \<Rightarrow>
             if v \<noteq> [] then
               (case setItem dst key v of
                  None \<Rightarrow> Threw dst
                | Some dst' \<Rightarrow> copy_entries wanted src rest dst')
             else copy_entries wanted src rest dst)
      else copy_entries wanted src rest dst)"

section \<open>The storage manager (class StorageManager)\<close>

definition storagePrefix :: string where
  "storagePrefix = ''pointmoney_''"

definition persistentKeys :: "string set" where
  "persistentKeys = {''auth_credentials'', ''users'', ''point-storage'', ''withdrawal-storage''}"

definition getKey :: "string \<Rightarrow> string" where
  "getKey key = storagePrefix @ key"

definition isPersistentKey :: "string \<Rightarrow> bool" where
  "isPersistentKey key = (key \<in> persistentKeys)"

text \<open>
  \<open>key.replace(pattern, '')\<close> with a string pattern removes the first occurrence of
  the pattern, wherever it stands in the key.
\<close>

fun replace_first :: "string \<Rightarrow> string \<Rightarrow> string" where
  "replace_first pat [] = []"
| "replace_first pat (c # cs) =
     (if prefix pat (c # cs) then drop (length pat) (c # cs) else c # replace_first pat cs)"

text \<open>
  \<open>set(key, value)\<close>: one \<open>try\<close> block around the serialization and both writes;
  \<open>catch\<close> logs and returns \<open>false\<close>. \<open>JSON.stringify\<close> is the host's: the parameter
  \<open>stringify\<close> gives the text it produces, or \<open>None\<close> where it throws.
\<close>

definition set_sm :: "('v \<Rightarrow> string option) \<Rightarrow> string \<Rightarrow> 'v \<Rightarrow> Tiers \<Rightarrow> bool \<times> Tiers" where
  "set_sm stringify key val t =
     (let prefixedKey = getKey key in
      case stringify val of
        None \<Rightarrow> (False, t)
      | Some serializedValue \<Rightarrow>
          (case setItem (localStorage t) prefixedKey serializedValue of
             None \<Rightarrow> (False, t)
           | Some l' \<Rightarrow>
               (case setItem (sessionStorage t) prefixedKey serializedValue of
                  None \<Rightarrow> (False, t\<lparr>localStorage := l'\<rparr>)
                | Some s' \<Rightarrow> (True, \<lparr>localStorage = l', sessionStorage = s'\<rparr>))))"

text \<open>
  \<open>sync()\<close>: the first loop copies \<open>localStorage\<close> into \<open>sessionStorage\<close>, the second
  copies the entries of \<open>sessionStorage\<close> whose key, with the prefix removed, is a
  persistent key back into \<open>localStorage\<close>. A write that throws ends the whole call
  (\<open>catch\<close> only logs).
\<close>

definition sync :: "Tiers \<Rightarrow> Tiers" where
  "sync t =
     (case copy_entries (\<lambda>key. True) (localStorage t) (storage_keys (localStorage t))
             (sessionStorage t) of
        Threw s' \<Rightarrow> t\<lparr>sessionStorage := s'\<rparr>
      | Completed s' \<Rightarrow>
          \<lparr>localStorage =
             state_of (copy_entries (\<lambda>key. isPersistentKey (replace_first storagePrefix key))
                         s' (storage_keys s') (localStorage t)),
           sessionStorage = s'\<rparr>)"

text \<open>
  Whether \<open>sync()\<close> reaches the end of its \<open>try\<close> block: no write of either loop
  throws.
\<close>

definition sync_completes :: "Tiers \<Rightarrow> bool" where
  "sync_completes t =
     (case copy_entries (\<lambda>key. True) (localStorage t) (storage_keys (localStorage t))
             (sessionStorage t) of
        Threw s' \<Rightarrow> False
      | Completed s' \<Rightarrow>
          (case copy_entries (\<lambda>key. isPersistentKey (replace_first storagePrefix key))
                  s' (storage_keys s') (localStorage t) of
             Threw l' \<Rightarrow> False
           | Completed l' \<Rightarrow> True))"

section \<open>The browser utilities' storage wrapper (storage.sync)\<close>

text \<open>
  The second source file has a \<open>storage\<close> object of its own, without a key prefix and
  without a list of persistent keys: its \<open>sync\<close> copies every entry in both directions
  and returns whether it ran to its end.
\<close>

definition sync_browser :: "Tiers \<Rightarrow> bool \<times> Tiers" where
  "sync_browser t =
     (case copy_entries (\<lambda>key. True) (localStorage t) (storage_keys (localStorage t))
             (sessionStorage t) of
        Threw s' \<Rightarrow> (False, t\<lparr>sessionStorage := s'\<rparr>)
      | Completed s' \<Rightarrow>
          (case copy_entries (\<lambda>key. True) s' (storage_keys s') (localStorage t) of
             Threw l' \<Rightarrow> (False, \<lparr>localStorage = l', sessionStorage = s'\<rparr>)
           | Completed l' \<Rightarrow> (True, \<lparr>localStorage = l', sessionStorage = s'\<rparr>)))"

section \<open>Example states\<close>

definition alice :: jsobject where
  "alice =
     \<lparr>numeric = [''points'' \<mapsto> Num 10, ''totalEarned'' \<mapsto> Num 10],
      textual = [''id'' \<mapsto> ''u1'', ''loginId'' \<mapsto> ''u1'', ''status'' \<mapsto> ''active'']\<rparr>"

definition signed_out :: AuthState where
  "signed_out =
     \<lparr>user = None, users = [''u1'' \<mapsto> alice], isAuthenticated = False, customIcon = None\<rparr>"

definition signed_in :: AuthState where
  "signed_in =
     \<lparr>user = Some alice, users = [''u1'' \<mapsto> alice], isAuthenticated = True,
      customIcon = None\<rparr>"

definition candidate :: jsobject where
  "candidate =
     \<lparr>numeric = Map.empty,
      textual = [''loginId'' \<mapsto> ''u1'', ''password'' \<mapsto> ''secret'']\<rparr>"

definition ghost :: jsobject where
  "ghost = \<lparr>numeric = Map.empty, textual = [''id'' \<mapsto> ''ghost'']\<rparr>"

definition penny :: jsobject where
  "penny =
     \<lparr>numeric = [''points'' \<mapsto> Num 1, ''totalEarned'' \<mapsto> Num 1],
      textual = [''id'' \<mapsto> ''u2'']\<rparr>"

definition penny_ledger :: AuthState where
  "penny_ledger =
     \<lparr>user = None, users = [''u2'' \<mapsto> penny], isAuthenticated = False, customIcon = None\<rparr>"

definition whale :: jsobject where
  "whale =
     \<lparr>numeric = [''points'' \<mapsto> Num 0, ''totalEarned'' \<mapsto> Num 9007199254740992],
      textual = [''id'' \<mapsto> ''u3'']\<rparr>"

definition whale_signed_in :: AuthState where
  "whale_signed_in =
     \<lparr>user = Some whale, users = [''u3'' \<mapsto> whale], isAuthenticated = True,
      customIcon = None\<rparr>"

definition secret_update :: jsobject where
  "secret_update = \<lparr>numeric = Map.empty, textual = [''password'' \<mapsto> ''hunter2'']\<rparr>"

definition roomy :: "(string \<times> string) list \<Rightarrow> string \<Rightarrow> string \<Rightarrow> bool" where
  "roomy held k v = True"

definition exhausted :: "(string \<times> string) list \<Rightarrow> string \<Rightarrow> string \<Rightarrow> bool" where
  "exhausted held k v = False"

definition session_full :: Tiers where
  "session_full =
     \<lparr>localStorage = \<lparr>items = [], accepts = roomy\<rparr>,
      sessionStorage = \<lparr>items = [], accepts = exhausted\<rparr>\<rparr>"

definition empty_value :: Tiers where
  "empty_value =
     \<lparr>localStorage = \<lparr>items = [], accepts = roomy\<rparr>,
      sessionStorage = \<lparr>items = [(''pointmoney_users'', [])], accepts = roomy\<rparr>\<rparr>"

definition diverged :: Tiers where
  "diverged =
     \<lparr>localStorage = \<lparr>items = [(''pointmoney_point-storage'', ''{}'')], accepts = roomy\<rparr>,
      sessionStorage =
        \<lparr>items = [(''pointmoney_users'', ''[1]''), (''pointmoney_tempFlag'', ''1'')],
         accepts = roomy\<rparr>\<rparr>"

definition primary_full :: Tiers where
  "primary_full =
     \<lparr>localStorage = \<lparr>items = [], accepts = exhausted\<rparr>,
      sessionStorage = \<lparr>items = [], accepts = roomy\<rparr>\<rparr>"

section \<open>Facts about numbers\<close>

lemma dropped_bits_small: "m < 9007199254740992 \<Longrightarrow> dropped_bits m = 0"
  by (subst dropped_bits.simps) simp

lemma dropped_bits_step:
  "9007199254740992 \<le> m \<Longrightarrow> dropped_bits m = Suc (dropped_bits (m div 2))"
  by (subst dropped_bits.simps) simp

lemma to_double_exact: "\<bar>n\<bar> \<le> 9007199254740991 \<Longrightarrow> to_double n = Num n"
  by (simp add: to_double_def Let_def dropped_bits_small)

lemma to_double_safe: "isSafeInteger n \<Longrightarrow> to_double n = Num n"
  by (simp add: isSafeInteger_def MAX_SAFE_INTEGER_def to_double_exact)

section \<open>Unfolding the store\<close>

lemmas store_defs = login_def updateProfile_def updateAvatar_def updatePoints_def
  updateUserPoints_def registerUser_def is_active_def key_of_def read_row_def
  object_prototype_def toNumber_def spread_def spread_of_def without_def empty_object_def
  Let_def points_of_def totalEarned_of_def state_after_def has_property_def js_sub_def
  to_double_exact

lemmas example_defs = alice_def signed_in_def signed_out_def candidate_def ghost_def
  penny_def penny_ledger_def secret_update_def whale_def whale_signed_in_def

lemmas storage_defs = getItem_def setItem_def storage_keys_def storagePrefix_def
  persistentKeys_def getKey_def isPersistentKey_def roomy_def exhausted_def

section \<open>Actions without a signed-in user\<close>

text \<open>
  C9. When no user is signed in (\<open>user\<close> is \<open>null\<close>), \<open>updateProfile\<close>,
  \<open>updateAvatar\<close> and \<open>updatePoints\<close> return without an error, leave the whole store
  state as it is and make no call: nothing is persisted.
\<close>

theorem no_active_user_noop:
  assumes "user s = None"
  shows "updateProfile updates s = (s, []) \<and>
         updateAvatar avatarUrl s = (s, []) \<and>
         updatePoints points s = Inr (s, [])"
  using assms by (simp add: updateProfile_def updateAvatar_def updatePoints_def)

theorem no_active_user_noop_witness:
  "user signed_out = None \<and>
   updateProfile candidate signed_out = (signed_out, []) \<and>
   updateAvatar ''a.png'' signed_out = (signed_out, []) \<and>
   updatePoints (-5) signed_out = Inr (signed_out, [])"
proof -
  have h: "user signed_out = None" by (simp add: signed_out_def)
  show ?thesis using h no_active_user_noop [OF h] by simp
qed

section \<open>The balance updates\<close>

text \<open>
  C1. The claim: after every ledger operation the balance (\<open>points\<close>) of every account
  is at least 0 when it was before. \<open>updateUserPoints\<close> keeps this with
  \<open>Math.max(0, points)\<close>; \<open>updatePoints\<close> stores its argument as it is. With the
  signed-in account at balance 10, \<open>updatePoints(-5)\<close> leaves the balance at \<open>-5\<close>.
\<close>

theorem updatePoints_stores_negative_balance:
  "points_of signed_in ''u1'' = Some (Num 10) \<and>
   (case state_after (updatePoints (-5) signed_in) of
      None \<Rightarrow> None
    | Some s' \<Rightarrow> points_of s' ''u1'') = Some (Num (-5))"
  by (simp add: store_defs example_defs)

lemma updateUserPoints_clamps_example:
  "points_of (fst (updateUserPoints ''u1'' (-5) signed_in)) ''u1'' = Some (Num 0)"
  by (simp add: store_defs example_defs)

text \<open>
  The other two writers of \<open>points\<close> keep every balance of the directory an integer
  \<open>\<ge> 0\<close>, for every argument.
\<close>

lemma updateUserPoints_keeps_balances:
  assumes "\<forall>k a. users s k = Some a \<longrightarrow> (\<exists>b. numeric a ''points'' = Some (Num b) \<and> 0 \<le> b)"
  shows "\<forall>k a. users (fst (updateUserPoints userId amount s)) k = Some a \<longrightarrow>
           (\<exists>b. numeric a ''points'' = Some (Num b) \<and> 0 \<le> b)"
  using assms by (auto simp: updateUserPoints_def Let_def split: option.splits if_splits)

lemma registerUser_keeps_balances:
  assumes "\<forall>k a. users s k = Some a \<longrightarrow> (\<exists>b. numeric a ''points'' = Some (Num b) \<and> 0 \<le> b)"
  shows "\<forall>k a. users (fst (snd (registerUser now userData s))) k = Some a \<longrightarrow>
           (\<exists>b. numeric a ''points'' = Some (Num b) \<and> 0 \<le> b)"
  using assms by (auto simp: registerUser_def Let_def split: option.splits if_splits)

text \<open>
  C2, as claimed: \<open>updatePoints(delta)\<close> sets the balance to
  \<open>max(0, currentBalance + delta)\<close> and increases \<open>totalEarned\<close> by exactly
  \<open>delta\<close>, for every integer. It does not set that balance: the argument is stored
  as the new balance. With the signed-in account at balance 10, \<open>updatePoints(5)\<close>
  leaves the balance at 5, not at 15. And the sum is a sum of doubles: with
  \<open>totalEarned\<close> at \<open>2 ^ 53\<close>, \<open>updatePoints(1)\<close> leaves it at \<open>2 ^ 53\<close>.
\<close>

theorem updatePoints_not_a_delta_counterexample:
  "points_of signed_in ''u1'' = Some (Num 10) \<and>
   (case state_after (updatePoints 5 signed_in) of
      None \<Rightarrow> None
    | Some s' \<Rightarrow> points_of s' ''u1'') = Some (Num 5) \<and>
   Num 5 \<noteq> Num (max 0 (10 + 5)) \<and>
   totalEarned_of whale_signed_in ''u3'' = Some (Num 9007199254740992) \<and>
   (case state_after (updatePoints 1 whale_signed_in) of
      None \<Rightarrow> None
    | Some s' \<Rightarrow> totalEarned_of s' ''u3'') = Some (Num 9007199254740992) \<and>
   Num 9007199254740992 \<noteq> Num (9007199254740992 + 1)"
  by (simp add: store_defs example_defs to_double_def dropped_bits_step dropped_bits_small)

text \<open>
  C2, amended. For every safe integer \<open>p\<close>, when a user is signed in whose directory
  row exists and has a safe integer \<open>totalEarned\<close>, and \<open>totalEarned + p\<close> is a safe
  integer, \<open>updatePoints(p)\<close> returns normally, increases \<open>totalEarned\<close> by
  exactly \<open>p\<close> (also when \<open>p\<close> is negative), writes the row to the directory and to
  the active user, persists it, and for \<open>p \<ge> 0\<close> leaves the balance at \<open>p\<close>
  itself.
\<close>

theorem updatePoints_earned:
  assumes "user s = Some active"
    and "users s (key_of (textual active ''id'')) = Some row"
    and "numeric row ''totalEarned'' = Some (Num earned)"
    and "isSafeInteger earned" and "isSafeInteger p" and "isSafeInteger (earned + p)"
  shows "\<exists>s' row'. updatePoints p s = Inr (s', [PersistState s', SaveUser row']) \<and>
           user s' = Some row' \<and>
           users s' = (users s)(key_of (textual active ''id'') \<mapsto> row') \<and>
           numeric row' ''totalEarned'' = Some (Num (earned + p)) \<and>
           (0 \<le> p \<longrightarrow> numeric row' ''points'' = Some (Num p))"
  using assms
  by (simp add: updatePoints_def read_row_def toNumber_def Let_def to_double_safe)

theorem updatePoints_earned_witness:
  "user signed_in = Some alice \<and>
   users signed_in (key_of (textual alice ''id'')) = Some alice \<and>
   numeric alice ''totalEarned'' = Some (Num 10) \<and>
   isSafeInteger 10 \<and> isSafeInteger (-20) \<and> isSafeInteger (10 + (-20)) \<and>
   (case state_after (updatePoints (-20) signed_in) of
      None \<Rightarrow> None
    | Some s' \<Rightarrow> totalEarned_of s' ''u1'') = Some (Num (-10))"
proof -
  have a: "user signed_in = Some alice" by (simp add: signed_in_def)
  have b: "users signed_in (key_of (textual alice ''id'')) = Some alice"
    by (simp add: signed_in_def alice_def key_of_def)
  have c: "numeric alice ''totalEarned'' = Some (Num 10)" by (simp add: alice_def)
  have d: "isSafeInteger 10" and e: "isSafeInteger (-20)" and f: "isSafeInteger (10 + (-20))"
    by (simp_all add: isSafeInteger_def MAX_SAFE_INTEGER_def)
  have k: "key_of (textual alice ''id'') = ''u1''" by (simp add: alice_def key_of_def)
  from updatePoints_earned [OF a b c d e f] k a b c d e f show ?thesis
    by (auto simp: state_after_def totalEarned_of_def)
qed

text \<open>
  C3, as claimed: for every id in the directory and every integer amount,
  \<open>updateUserPoints(id, amount)\<close> increases \<open>totalEarned\<close> by
  \<open>clamped - currentBalance\<close> when \<open>clamped > currentBalance\<close>. The store computes
  in doubles: for the account at balance 1 and \<open>totalEarned\<close> 1 and the amount
  \<open>2 ^ 53 + 2\<close> (a double), the difference \<open>2 ^ 53 + 1\<close> and the sum after it are
  rounded, and \<open>totalEarned\<close> ends at \<open>2 ^ 53\<close>, not at \<open>2 ^ 53 + 2\<close>.
\<close>

theorem updateUserPoints_rounding_counterexample:
  "points_of penny_ledger ''u2'' = Some (Num 1) \<and>
   totalEarned_of penny_ledger ''u2'' = Some (Num 1) \<and>
   points_of (fst (updateUserPoints ''u2'' 9007199254740994 penny_ledger)) ''u2'' =
     Some (Num (max 0 9007199254740994)) \<and>
   totalEarned_of (fst (updateUserPoints ''u2'' 9007199254740994 penny_ledger)) ''u2'' =
     Some (Num 9007199254740992) \<and>
   (1::int) + (max 0 9007199254740994 - 1) = 9007199254740994"
  by (simp add: store_defs example_defs to_double_def dropped_bits_step dropped_bits_small)

text \<open>
  C3, amended. For every id in the directory whose account has a safe integer balance
  \<open>\<ge> 0\<close> and a safe integer \<open>totalEarned\<close>, and every safe integer amount for which
  the new \<open>totalEarned\<close> is a safe integer, \<open>updateUserPoints(id, amount)\<close> sets the
  balance to \<open>clamped = max(0, amount)\<close> and increases \<open>totalEarned\<close> by
  \<open>clamped - currentBalance\<close> exactly when \<open>clamped > currentBalance\<close>, leaving it
  unchanged otherwise. (The code compares and subtracts the raw amount; with a balance
  \<open>\<ge> 0\<close> that is the same.)
\<close>

theorem updateUserPoints_ledger:
  assumes "users s userId = Some acct"
    and "numeric acct ''points'' = Some (Num balance)"
    and "0 \<le> balance"
    and "numeric acct ''totalEarned'' = Some (Num earned)"
    and "isSafeInteger balance" and "isSafeInteger earned" and "isSafeInteger amount"
    and "isSafeInteger (earned + max 0 (amount - balance))"
  shows "points_of (fst (updateUserPoints userId amount s)) userId = Some (Num (max 0 amount)) \<and>
         totalEarned_of (fst (updateUserPoints userId amount s)) userId =
           Some (Num (if max 0 amount > balance then earned + (max 0 amount - balance)
                      else earned))"
proof (cases "amount > balance")
  case True
  then have "\<bar>amount - balance\<bar> \<le> \<bar>amount\<bar>" using assms(3) by simp
  then have diff: "to_double (amount - balance) = Num (amount - balance)"
    using assms(7) by (simp add: isSafeInteger_def MAX_SAFE_INTEGER_def to_double_exact)
  have "max 0 (amount - balance) = amount - balance" using True by simp
  then have total: "to_double (earned + (amount - balance)) = Num (earned + (amount - balance))"
    using assms(8) by (simp add: to_double_safe)
  show ?thesis
    using assms(1-4) True diff total
    by (simp add: updateUserPoints_def read_row_def toNumber_def Let_def points_of_def
          totalEarned_of_def js_sub_def)
next
  case False
  have "to_double earned = Num earned" using assms(6) by (rule to_double_safe)
  moreover have "\<not> balance < max 0 amount" using False assms(3) by simp
  ultimately show ?thesis
    using assms(1-4) False
    by (simp add: updateUserPoints_def read_row_def toNumber_def Let_def points_of_def
          totalEarned_of_def)
qed

theorem updateUserPoints_ledger_witness:
  "users signed_in ''u1'' = Some alice \<and>
   numeric alice ''points'' = Some (Num 10) \<and>
   numeric alice ''totalEarned'' = Some (Num 10) \<and>
   isSafeInteger 10 \<and> isSafeInteger 100 \<and> isSafeInteger (10 + max 0 (100 - 10)) \<and>
   points_of (fst (updateUserPoints ''u1'' 100 signed_in)) ''u1'' = Some (Num 100) \<and>
   totalEarned_of (fst (updateUserPoints ''u1'' 100 signed_in)) ''u1'' = Some (Num 100)"
proof -
  have a: "users signed_in ''u1'' = Some alice" by (simp add: signed_in_def)
  have b: "numeric alice ''points'' = Some (Num 10)" by (simp add: alice_def)
  have c: "(0::int) \<le> 10" by simp
  have d: "numeric alice ''totalEarned'' = Some (Num 10)" by (simp add: alice_def)
  have e: "isSafeInteger 10" and f: "isSafeInteger 100"
    and g: "isSafeInteger (10 + max 0 (100 - 10))"
    by (simp_all add: isSafeInteger_def MAX_SAFE_INTEGER_def)
  from updateUserPoints_ledger [OF a b c d e e f g] a b d e f g show ?thesis by simp
qed

text \<open>
  The scenario of the specification: a fresh account at \<open>(0, 0)\<close>, then the balance set
  to 100, 40 and 90 gives \<open>(100, 100)\<close>, \<open>(40, 100)\<close> and \<open>(90, 150)\<close>.
\<close>

lemma updateUserPoints_scenario:
  fixes s0 s1 s2 s3 :: AuthState
  defines "s0 \<equiv> fst (snd (registerUser ''t0'' candidate
                    \<lparr>user = None, users = Map.empty, isAuthenticated = False,
                     customIcon = None\<rparr>))"
  defines "s1 \<equiv> fst (updateUserPoints ''u1'' 100 s0)"
  defines "s2 \<equiv> fst (updateUserPoints ''u1'' 40 s1)"
  defines "s3 \<equiv> fst (updateUserPoints ''u1'' 90 s2)"
  shows "points_of s0 ''u1'' = Some (Num 0) \<and> totalEarned_of s0 ''u1'' = Some (Num 0) \<and>
         points_of s1 ''u1'' = Some (Num 100) \<and> totalEarned_of s1 ''u1'' = Some (Num 100) \<and>
         points_of s2 ''u1'' = Some (Num 40) \<and> totalEarned_of s2 ''u1'' = Some (Num 100) \<and>
         points_of s3 ''u1'' = Some (Num 90) \<and> totalEarned_of s3 ''u1'' = Some (Num 150)"
  unfolding s0_def s1_def s2_def s3_def by (simp add: store_defs example_defs)

section \<open>Registration and login\<close>

text \<open>
  C4, as claimed: for a candidate whose id is already in the directory, \<open>registerUser\<close>
  fails with \<open>DuplicateId\<close> and changes nothing. It does not: with \<open>u1\<close> in the
  directory at balance 10, registering \<open>u1\<close> again hands the credential to the
  credential store and replaces the row by a fresh one at balance 0.
\<close>

theorem registerUser_duplicate_counterexample:
  "points_of signed_in ''u1'' = Some (Num 10) \<and>
   points_of (fst (snd (registerUser ''t1'' candidate signed_in))) ''u1'' = Some (Num 0) \<and>
   hd (snd (snd (registerUser ''t1'' candidate signed_in))) =
     AddCredential (Some ''u1'') (Some ''secret'')"
  by (simp add: store_defs example_defs)

text \<open>
  C4, amended. \<open>registerUser\<close> has no duplicate check and no failure: for every
  candidate, also one whose id is already in the directory, it returns a new account with
  balance 0, \<open>totalEarned\<close> 0, status \<open>active\<close> and the candidate's \<open>loginId\<close> as
  id, hands the credential to the credential store, persists the row and puts it in the
  directory under that id. Every other directory entry and the active user are left as
  they were.
\<close>

theorem registerUser_always_inserts:
  "numeric (fst (registerUser now userData s)) ''points'' = Some (Num 0) \<and>
   numeric (fst (registerUser now userData s)) ''totalEarned'' = Some (Num 0) \<and>
   textual (fst (registerUser now userData s)) ''status'' = Some ''active'' \<and>
   textual (fst (registerUser now userData s)) ''id'' = textual userData ''loginId'' \<and>
   users (fst (snd (registerUser now userData s))) (key_of (textual userData ''loginId'')) =
     Some (fst (registerUser now userData s)) \<and>
   (\<forall>k. k \<noteq> key_of (textual userData ''loginId'') \<longrightarrow>
        users (fst (snd (registerUser now userData s))) k = users s k) \<and>
   user (fst (snd (registerUser now userData s))) = user s \<and>
   isAuthenticated (fst (snd (registerUser now userData s))) = isAuthenticated s \<and>
   snd (snd (registerUser now userData s)) =
     [AddCredential (textual userData ''loginId'') (textual userData ''password''),
      SaveUser (fst (registerUser now userData s)),
      PersistState (fst (snd (registerUser now userData s)))]"
  by (simp add: registerUser_def Let_def)

theorem registerUser_always_inserts_witness:
  "users signed_in ''u1'' = Some alice \<and>
   key_of (textual candidate ''loginId'') = ''u1'' \<and>
   users (fst (snd (registerUser ''t1'' candidate signed_in))) ''u1'' =
     Some (fst (registerUser ''t1'' candidate signed_in)) \<and>
   numeric (fst (registerUser ''t1'' candidate signed_in)) ''points'' = Some (Num 0) \<and>
   ''u2'' \<noteq> key_of (textual candidate ''loginId'') \<and>
   users (fst (snd (registerUser ''t1'' candidate signed_in))) ''u2'' = users signed_in ''u2''"
proof -
  have k: "key_of (textual candidate ''loginId'') = ''u1''"
    by (simp add: candidate_def key_of_def)
  have a: "users signed_in ''u1'' = Some alice" by (simp add: signed_in_def)
  from registerUser_always_inserts [of "''t1''" candidate signed_in] k a show ?thesis
    by simp
qed

text \<open>
  C5. The claim: for an id that is not in the directory, \<open>login\<close> fails with
  \<open>NotFound\<close> and changes neither the directory nor the active user. The store's
  \<open>login\<close> has no check of the id (its sibling \<open>updateUserPoints\<close> returns early on
  an unknown id): for the unknown id \<open>ghost\<close> it writes a row holding only
  \<open>lastLogin\<close> under that id and signs the user in.
\<close>

theorem login_unknown_id_writes_row:
  "users signed_out ''ghost'' = None \<and>
   users (fst (login ''t1'' ghost signed_out)) ''ghost'' =
     Some \<lparr>numeric = Map.empty, textual = [''lastLogin'' \<mapsto> ''t1'']\<rparr> \<and>
   user signed_out = None \<and>
   user (fst (login ''t1'' ghost signed_out)) =
     Some \<lparr>numeric = Map.empty, textual = [''lastLogin'' \<mapsto> ''t1'']\<rparr> \<and>
   isAuthenticated (fst (login ''t1'' ghost signed_out))"
  by (simp add: store_defs example_defs)

text \<open>
  For an id that is in the directory, \<open>login\<close> does what the claim says: it sets that
  account's \<open>lastLogin\<close> to the current time and leaves its other properties as they
  are, writes the account to the directory under its id and to the active user, sets
  \<open>isAuthenticated\<close>, and persists it (the store's state and \<open>saveUser\<close>).
\<close>

lemma login_known_id:
  assumes "users s (key_of (textual userData ''id'')) = Some acct"
  shows "\<exists>acct'. login now userData s =
            (s\<lparr>user := Some acct',
               users := (users s)(key_of (textual userData ''id'') \<mapsto> acct'),
               isAuthenticated := True\<rparr>,
             [PersistState (s\<lparr>user := Some acct',
                users := (users s)(key_of (textual userData ''id'') \<mapsto> acct'),
                isAuthenticated := True\<rparr>),
              SaveUser acct']) \<and>
          textual acct' ''lastLogin'' = Some now \<and>
          numeric acct' = numeric acct \<and>
          (\<forall>p. p \<noteq> ''lastLogin'' \<longrightarrow> textual acct' p = textual acct p)"
  using assms by (simp add: login_def read_row_def spread_of_def Let_def)

lemma login_known_id_example:
  "users signed_out (key_of (textual alice ''id'')) = Some alice \<and>
   isAuthenticated (fst (login ''t1'' alice signed_out)) \<and>
   map_option (\<lambda>a. textual a ''lastLogin'') (user (fst (login ''t1'' alice signed_out))) =
     Some (Some ''t1'') \<and>
   map_option numeric (user (fst (login ''t1'' alice signed_out))) = Some (numeric alice)"
proof -
  have a: "users signed_out (key_of (textual alice ''id'')) = Some alice"
    by (simp add: signed_out_def alice_def key_of_def)
  from login_known_id [OF a, of "''t1''"] a show ?thesis by auto
qed

text \<open>
  C10, as claimed: the account that \<open>registerUser\<close> stores has no \<open>password\<close>
  property, so that no account stored in the directory ever carries the secret. The
  first half holds; the conclusion does not: \<open>updateProfile\<close> spreads its updates into
  the row, a \<open>password\<close> among them.
\<close>

theorem updateProfile_stores_password_counterexample:
  "users signed_in ''u1'' = Some alice \<and>
   \<not> has_property ''password'' alice \<and>
   map_option (\<lambda>row. textual row ''password'')
     (users (fst (updateProfile secret_update signed_in)) ''u1'') = Some (Some ''hunter2'') \<and>
   map_option (has_property ''password'')
     (users (fst (updateProfile secret_update signed_in)) ''u1'') = Some True"
  by (simp add: store_defs example_defs)

text \<open>
  C10, amended. For every registration input, the account that \<open>registerUser\<close>
  returns, puts in the directory and passes to \<open>saveUser\<close> has no \<open>password\<close>
  property; the password goes to \<open>addCredential\<close> only, and an account of the
  directory that carries a \<open>password\<close> property after the call was there, unchanged,
  before it.
\<close>

theorem registerUser_strips_password:
  "\<not> has_property ''password'' (fst (registerUser now userData s)) \<and>
   users (fst (snd (registerUser now userData s))) (key_of (textual userData ''loginId'')) =
     Some (fst (registerUser now userData s)) \<and>
   snd (snd (registerUser now userData s)) =
     [AddCredential (textual userData ''loginId'') (textual userData ''password''),
      SaveUser (fst (registerUser now userData s)),
      PersistState (fst (snd (registerUser now userData s)))] \<and>
   (\<forall>k a. users (fst (snd (registerUser now userData s))) k = Some a \<and>
          has_property ''password'' a \<longrightarrow> users s k = Some a)"
  by (auto simp: registerUser_def Let_def has_property_def without_def
        split: if_splits)

theorem registerUser_strips_password_witness:
  "has_property ''password'' candidate \<and>
   \<not> has_property ''password'' (fst (registerUser ''t1'' candidate signed_out)) \<and>
   users (fst (snd (registerUser ''t1'' candidate signed_out))) ''u1'' =
     Some (fst (registerUser ''t1'' candidate signed_out)) \<and>
   hd (snd (snd (registerUser ''t1'' candidate signed_out))) =
     AddCredential (Some ''u1'') (Some ''secret'')"
proof -
  have k: "key_of (textual candidate ''loginId'') = ''u1''"
    by (simp add: candidate_def key_of_def)
  have p: "has_property ''password'' candidate \<and> textual candidate ''password'' = Some ''secret''
           \<and> textual candidate ''loginId'' = Some ''u1''"
    by (simp add: candidate_def has_property_def)
  from registerUser_strips_password [of "''t1''" candidate signed_out] k p show ?thesis
    by simp
qed

section \<open>Facts about the tiers\<close>

lemma getItem_setItem:
  "setItem st k v = Some st' \<Longrightarrow> getItem st' k' = (if k' = k then Some v else getItem st k')"
  by (auto simp: setItem_def getItem_def update_conv' split: if_splits)

lemma setItem_same:
  "getItem st k = Some v \<Longrightarrow> setItem st k v = Some st' \<Longrightarrow> st' = st"
  by (auto simp: setItem_def getItem_def update_triv split: if_splits)

lemma accepts_setItem: "setItem st k v = Some st' \<Longrightarrow> accepts st' = accepts st"
  by (auto simp: setItem_def split: if_splits)

lemma getItem_in_keys: "getItem st k = Some v \<Longrightarrow> k \<in> set (storage_keys st)"
  by (auto simp: getItem_def storage_keys_def dest!: map_of_SomeD intro: rev_image_eqI)

lemma replace_first_prefix: "replace_first p (p @ u) = u"
proof (cases "p @ u")
  case Nil
  then show ?thesis by simp
next
  case (Cons c cs)
  have "prefix p (c # cs)" unfolding Cons [symmetric] by simp
  moreover have "drop (length p) (c # cs) = u" unfolding Cons [symmetric] by simp
  ultimately show ?thesis by (simp add: Cons)
qed

lemma copy_entries_noop:
  "(\<And>k v. k \<in> set ks \<Longrightarrow> k \<noteq> [] \<Longrightarrow> wanted k \<Longrightarrow> getItem src k = Some v \<Longrightarrow> v \<noteq> []
       \<Longrightarrow> getItem dst k = Some v)
   \<Longrightarrow> state_of (copy_entries wanted src ks dst) = dst"
proof (induction ks)
  case Nil
  then show ?case by simp
next
  case (Cons key rest)
  have rest: "state_of (copy_entries wanted src rest dst) = dst"
    using Cons by simp
  show ?case
  proof (cases "key \<noteq> [] \<and> wanted key")
    case False
    then show ?thesis using rest by auto
  next
    case True
    show ?thesis
    proof (cases "getItem src key")
      case None
      then show ?thesis using rest True by simp
    next
      case (Some v)
      show ?thesis
      proof (cases "v = []")
        case True
        then show ?thesis using rest Some by simp
      next
        case False
        have held: "getItem dst key = Some v"
          using Cons.prems [of key v] True Some False by simp
        show ?thesis
        proof (cases "setItem dst key v")
          case None
          then show ?thesis using True Some False by simp
        next
          case (Some dst')
          then have "dst' = dst" using held setItem_same by blast
          then show ?thesis using True \<open>getItem src key = Some v\<close> False Some rest by simp
        qed
      qed
    qed
  qed
qed

lemma copy_entries_getItem:
  "getItem (state_of (copy_entries wanted src ks dst)) k = getItem dst k \<or>
   (k \<in> set ks \<and> k \<noteq> [] \<and> wanted k \<and> (\<exists>v. getItem src k = Some v \<and> v \<noteq> [] \<and>
      getItem (state_of (copy_entries wanted src ks dst)) k = Some v))"
proof (induction ks arbitrary: dst)
  case Nil
  then show ?case by simp
next
  case (Cons key rest)
  show ?case
  proof (cases "key \<noteq> [] \<and> wanted key \<and> (\<exists>v. getItem src key = Some v \<and> v \<noteq> [])")
    case False
    then have "copy_entries wanted src (key # rest) dst = copy_entries wanted src rest dst"
      by (auto split: option.splits)
    then show ?thesis using Cons.IH [of dst] by auto
  next
    case True
    then obtain v where v: "getItem src key = Some v" "v \<noteq> []" by blast
    show ?thesis
    proof (cases "setItem dst key v")
      case None
      then show ?thesis using True v by simp
    next
      case (Some dst')
      then have step: "state_of (copy_entries wanted src (key # rest) dst) =
                       state_of (copy_entries wanted src rest dst')"
        using True v by simp
      have upd: "getItem dst' k = (if k = key then Some v else getItem dst k)"
        using Some by (rule getItem_setItem)
      from Cons.IH [of dst']
      consider (kept) "getItem (state_of (copy_entries wanted src rest dst')) k = getItem dst' k"
        | (copied) "k \<in> set rest \<and> k \<noteq> [] \<and> wanted k \<and> (\<exists>v. getItem src k = Some v \<and> v \<noteq> [] \<and>
            getItem (state_of (copy_entries wanted src rest dst')) k = Some v)"
        by blast
      then show ?thesis
      proof cases
        case kept
        show ?thesis
        proof (cases "k = key")
          case True
          then show ?thesis using kept upd step \<open>key \<noteq> [] \<and> wanted key \<and> _\<close> v by simp
        next
          case False
          then show ?thesis using kept upd step by simp
        qed
      next
        case copied
        then show ?thesis using step by simp
      qed
    qed
  qed
qed

lemma copy_entries_completed:
  "copy_entries wanted src ks dst = Completed d' \<Longrightarrow> k \<in> set ks \<Longrightarrow> k \<noteq> [] \<Longrightarrow> wanted k
   \<Longrightarrow> getItem src k = Some v \<Longrightarrow> v \<noteq> [] \<Longrightarrow> getItem d' k = Some v"
proof (induction ks arbitrary: dst)
  case Nil
  then show ?case by simp
next
  case (Cons key rest)
  show ?case
  proof (cases "key \<noteq> [] \<and> wanted key \<and> (\<exists>w. getItem src key = Some w \<and> w \<noteq> [])")
    case False
    then have same: "copy_entries wanted src (key # rest) dst = copy_entries wanted src rest dst"
      by (auto split: option.splits)
    have "k \<noteq> key" using False Cons.prems by auto
    then have "k \<in> set rest" using Cons.prems by simp
    then show ?thesis using Cons.IH [of dst] Cons.prems same by simp
  next
    case True
    then obtain w where w: "getItem src key = Some w" "w \<noteq> []" by blast
    show ?thesis
    proof (cases "setItem dst key w")
      case None
      then show ?thesis using True w Cons.prems by simp
    next
      case (Some dst')
      then have step: "copy_entries wanted src rest dst' = Completed d'"
        using True w Cons.prems by simp
      show ?thesis
      proof (cases "k \<in> set rest")
        case True
        then show ?thesis using Cons.IH [OF step] Cons.prems by simp
      next
        case False
        then have "k = key" using Cons.prems by simp
        then have "getItem dst' k = Some v"
          using getItem_setItem [OF Some, of k] w Cons.prems by simp
        moreover have "getItem (state_of (copy_entries wanted src rest dst')) k = getItem dst' k"
          using copy_entries_getItem [of wanted src rest dst' k] False by auto
        ultimately show ?thesis using step by simp
      qed
    qed
  qed
qed

lemma copy_entries_threw_again:
  "copy_entries wanted src ks dst = Threw d' \<Longrightarrow> copy_entries wanted src ks d' = Threw d'"
proof (induction ks arbitrary: dst)
  case Nil
  then show ?case by simp
next
  case (Cons key rest)
  show ?case
  proof (cases "key \<noteq> [] \<and> wanted key \<and> (\<exists>w. getItem src key = Some w \<and> w \<noteq> [])")
    case False
    then have same: "\<And>d. copy_entries wanted src (key # rest) d = copy_entries wanted src rest d"
      by (auto split: option.splits)
    then show ?thesis using Cons.IH [of dst] Cons.prems by simp
  next
    case True
    then obtain w where w: "getItem src key = Some w" "w \<noteq> []" by blast
    show ?thesis
    proof (cases "setItem dst key w")
      case None
      then have "d' = dst" using True w Cons.prems by simp
      then show ?thesis using None True w by simp
    next
      case (Some dst')
      then have step: "copy_entries wanted src rest dst' = Threw d'"
        using True w Cons.prems by simp
      have "getItem dst' key = Some w" using getItem_setItem [OF Some, of key] by simp
      then have held: "getItem d' key = Some w"
        using copy_entries_getItem [of wanted src rest dst' key] step w by auto
      show ?thesis
      proof (cases "setItem d' key w")
        case None
        then show ?thesis using True w by simp
      next
        case (Some d'')
        then have "d'' = d'" using held setItem_same by blast
        then show ?thesis using Some True w Cons.IH [OF step] by simp
      qed
    qed
  qed
qed

lemma copy_entries_completes:
  "\<forall>held k v. accepts dst held k v \<Longrightarrow> \<exists>d'. copy_entries wanted src ks dst = Completed d'"
proof (induction ks arbitrary: dst)
  case Nil
  then show ?case by simp
next
  case (Cons key rest)
  show ?case
  proof (cases "key \<noteq> [] \<and> wanted key \<and> (\<exists>w. getItem src key = Some w \<and> w \<noteq> [])")
    case False
    then have "copy_entries wanted src (key # rest) dst = copy_entries wanted src rest dst"
      by (auto split: option.splits)
    then show ?thesis using Cons.IH [OF Cons.prems] by simp
  next
    case True
    then obtain w where w: "getItem src key = Some w" "w \<noteq> []" by blast
    obtain d where d: "setItem dst key w = Some d"
      using Cons.prems by (simp add: setItem_def)
    have "\<forall>held k v. accepts d held k v"
      using accepts_setItem [OF d] Cons.prems by simp
    then have "\<exists>d'. copy_entries wanted src rest d = Completed d'" by (rule Cons.IH)
    then show ?thesis using True w d by simp
  qed
qed

lemma first_pass_keeps:
  assumes "getItem l k = None"
  shows "getItem (state_of (copy_entries wanted l ks s)) k = getItem s k"
  using copy_entries_getItem [of wanted l ks s k] assms by auto

lemma second_pass_only:
  assumes "getItem l k = None" and "getItem s k = Some v"
  shows "(getItem (state_of (copy_entries wanted s ks l)) k = None \<or>
          getItem (state_of (copy_entries wanted s ks l)) k = Some v) \<and>
         (getItem (state_of (copy_entries wanted s ks l)) k = Some v \<longrightarrow> wanted k \<and> v \<noteq> [])"
  using copy_entries_getItem [of wanted s ks l k] assms by auto

lemma second_pass_copies:
  assumes "copy_entries wanted s (storage_keys s) l = Completed d"
    and "getItem s k = Some v" and "k \<noteq> []" and "wanted k" and "v \<noteq> []"
  shows "getItem d k = Some v"
  using copy_entries_completed [OF assms(1), of k v] getItem_in_keys [OF assms(2)] assms
  by simp

lemma roomy_sync_completes:
  assumes "\<forall>held k w. accepts (localStorage t) held k w"
    and "\<forall>held k w. accepts (sessionStorage t) held k w"
  shows "sync_completes t"
proof -
  obtain s' where s': "copy_entries (\<lambda>key. True) (localStorage t)
      (storage_keys (localStorage t)) (sessionStorage t) = Completed s'"
    using copy_entries_completes [OF assms(2)] by blast
  obtain l' where "copy_entries (\<lambda>key. isPersistentKey (replace_first storagePrefix key))
      s' (storage_keys s') (localStorage t) = Completed l'"
    using copy_entries_completes [OF assms(1)] by blast
  then show ?thesis using s' by (simp add: sync_completes_def)
qed

section \<open>Writing through the storage manager\<close>

text \<open>
  C6, as claimed: \<open>set\<close> returns \<open>false\<close> only when the serialization or the write to
  \<open>localStorage\<close> fails, a failing write to \<open>sessionStorage\<close> does not fail the call,
  and a call that returns \<open>false\<close> leaves both tiers unchanged. It does not: both writes
  stand in one \<open>try\<close> block. When \<open>sessionStorage\<close> refuses the write, the call
  returns \<open>false\<close> although the serialization and the write to \<open>localStorage\<close>
  succeeded, and \<open>localStorage\<close> holds the new value.
\<close>

theorem set_sm_secondary_failure_counterexample:
  "\<not> fst (set_sm Some ''users'' ''[]'' session_full) \<and>
   setItem (localStorage session_full) (getKey ''users'') ''[]'' \<noteq> None \<and>
   getItem (localStorage session_full) (getKey ''users'') = None \<and>
   getItem (localStorage (snd (set_sm Some ''users'' ''[]'' session_full))) (getKey ''users'') =
     Some ''[]''"
  by (simp add: set_sm_def session_full_def storage_defs)

text \<open>
  C6, amended. \<open>set(key, value)\<close> returns \<open>true\<close> exactly when the serialization and
  both writes succeed; it returns \<open>false\<close> when the serialization, the write to
  \<open>localStorage\<close> or the write to \<open>sessionStorage\<close> fails. Whenever it returns
  \<open>false\<close>, \<open>sessionStorage\<close> is unchanged. When the serialization or the write to
  \<open>localStorage\<close> fails, both tiers are unchanged; when the write to \<open>localStorage\<close>
  succeeds, \<open>localStorage\<close> holds the new value under the prefixed key, also when the
  call then returns \<open>false\<close>.
\<close>

theorem set_sm_outcome:
  "(fst (set_sm stringify key val t) \<longleftrightarrow>
      (\<exists>sv. stringify val = Some sv \<and>
            setItem (localStorage t) (getKey key) sv \<noteq> None \<and>
            setItem (sessionStorage t) (getKey key) sv \<noteq> None)) \<and>
   (\<not> fst (set_sm stringify key val t) \<longrightarrow>
      sessionStorage (snd (set_sm stringify key val t)) = sessionStorage t) \<and>
   (stringify val = None \<longrightarrow> snd (set_sm stringify key val t) = t) \<and>
   (\<forall>sv. stringify val = Some sv \<longrightarrow>
      (setItem (localStorage t) (getKey key) sv = None \<longrightarrow>
         snd (set_sm stringify key val t) = t) \<and>
      (setItem (localStorage t) (getKey key) sv \<noteq> None \<longrightarrow>
         getItem (localStorage (snd (set_sm stringify key val t))) (getKey key) = Some sv))"
  by (auto simp: set_sm_def Let_def getItem_setItem split: option.splits)

theorem set_sm_outcome_witness:
  "\<not> fst (set_sm Some ''users'' ''[]'' primary_full) \<and>
   snd (set_sm Some ''users'' ''[]'' primary_full) = primary_full \<and>
   fst (set_sm Some ''users'' ''[2]'' diverged) \<and>
   getItem (localStorage (snd (set_sm Some ''users'' ''[2]'' diverged))) (getKey ''users'') =
     Some ''[2]''"
proof -
  have a: "setItem (localStorage primary_full) (getKey ''users'') ''[]'' = None"
    by (simp add: primary_full_def storage_defs)
  have b: "setItem (localStorage diverged) (getKey ''users'') ''[2]'' \<noteq> None"
          "setItem (sessionStorage diverged) (getKey ''users'') ''[2]'' \<noteq> None"
    by (simp_all add: diverged_def storage_defs)
  from set_sm_outcome [of Some "''users''" "''[]''" primary_full]
       set_sm_outcome [of Some "''users''" "''[2]''" diverged] a b
  show ?thesis by auto
qed

section \<open>Reconciling the tiers\<close>

text \<open>
  C7, as claimed: in the second pass of \<open>sync()\<close> a prefixed entry that is only in
  \<open>sessionStorage\<close> is copied into \<open>localStorage\<close> if and only if its key without
  the prefix is a persistent key, and the entry of a key that is not persistent is never
  copied. The storage manager's second loop also requires a non-empty value
  (\<open>if (value)\<close>): the entry \<open>pointmoney_users\<close> with the empty string as its value
  has a persistent key and is not copied. The \<open>sync\<close> of the browser utilities'
  \<open>storage\<close> object, the other \<open>sync\<close> the claim is drawn from, knows no persistent
  keys: it copies the entry \<open>pointmoney_tempFlag\<close>, whose key is not persistent.
\<close>

theorem sync_copy_rule_counterexample:
  "isPersistentKey ''users'' \<and>
   getItem (sessionStorage empty_value) (getKey ''users'') = Some [] \<and>
   getItem (localStorage empty_value) (getKey ''users'') = None \<and>
   getItem (localStorage (sync empty_value)) (getKey ''users'') = None \<and>
   \<not> isPersistentKey ''tempFlag'' \<and>
   getItem (sessionStorage diverged) (getKey ''tempFlag'') = Some ''1'' \<and>
   getItem (localStorage diverged) (getKey ''tempFlag'') = None \<and>
   getItem (localStorage (snd (sync_browser diverged))) (getKey ''tempFlag'') = Some ''1''"
  by (simp add: sync_def sync_browser_def empty_value_def diverged_def storage_defs)

text \<open>
  C7, amended. Take an entry under a prefixed key that is in \<open>sessionStorage\<close> and not
  in \<open>localStorage\<close>. The storage manager's \<open>sync()\<close> leaves \<open>localStorage\<close>
  either without the key or with the entry's value; it copies the entry only if the key
  without the prefix is a persistent key and the value is not the empty string (so the
  entry of a key that is not persistent is never copied); and when no write throws
  during the call, it copies every such entry. The \<open>sync()\<close> of the browser
  utilities' \<open>storage\<close> object copies the entry only if its value is not the empty
  string, whatever its key, and copies every such entry when no write throws (when it
  returns \<open>true\<close>).
\<close>

theorem sync_secondary_only:
  assumes "getItem (localStorage t) (getKey u) = None"
    and "getItem (sessionStorage t) (getKey u) = Some v"
  shows "(getItem (localStorage (sync t)) (getKey u) = None \<or>
          getItem (localStorage (sync t)) (getKey u) = Some v) \<and>
         (getItem (localStorage (sync t)) (getKey u) = Some v \<longrightarrow> isPersistentKey u \<and> v \<noteq> []) \<and>
         (sync_completes t \<and> isPersistentKey u \<and> v \<noteq> []
            \<longrightarrow> getItem (localStorage (sync t)) (getKey u) = Some v) \<and>
         (getItem (localStorage (snd (sync_browser t))) (getKey u) = None \<or>
          getItem (localStorage (snd (sync_browser t))) (getKey u) = Some v) \<and>
         (getItem (localStorage (snd (sync_browser t))) (getKey u) = Some v \<longrightarrow> v \<noteq> []) \<and>
         (fst (sync_browser t) \<and> v \<noteq> []
            \<longrightarrow> getItem (localStorage (snd (sync_browser t))) (getKey u) = Some v)"
proof (cases "copy_entries (\<lambda>key. True) (localStorage t) (storage_keys (localStorage t))
                (sessionStorage t)")
  case (Threw s')
  then have "localStorage (sync t) = localStorage t" "\<not> sync_completes t"
    "localStorage (snd (sync_browser t)) = localStorage t" "\<not> fst (sync_browser t)"
    by (simp_all add: sync_def sync_completes_def sync_browser_def)
  then show ?thesis using assms by simp
next
  case (Completed s')
  let ?P = "\<lambda>key. isPersistentKey (replace_first storagePrefix key)"
  let ?A = "\<lambda>key::string. True"
  let ?pass2 = "copy_entries ?P s' (storage_keys s') (localStorage t)"
  let ?pass2b = "copy_entries ?A s' (storage_keys s') (localStorage t)"
  have s': "getItem s' (getKey u) = Some v"
    using first_pass_keeps [OF assms(1), of ?A "storage_keys (localStorage t)"
        "sessionStorage t"] Completed assms(2) by simp
  have key: "getKey u \<noteq> []" by (simp add: getKey_def storagePrefix_def)
  have want: "?P (getKey u) = isPersistentKey u"
    by (simp add: getKey_def replace_first_prefix)
  have l': "localStorage (sync t) = state_of ?pass2" using Completed by (simp add: sync_def)
  have only: "(getItem (state_of ?pass2) (getKey u) = None \<or>
               getItem (state_of ?pass2) (getKey u) = Some v) \<and>
              (getItem (state_of ?pass2) (getKey u) = Some v \<longrightarrow> isPersistentKey u \<and> v \<noteq> [])"
    using second_pass_only [OF assms(1) s', of ?P "storage_keys s'"] want by simp
  have copies: "getItem (state_of ?pass2) (getKey u) = Some v"
    if "sync_completes t" "isPersistentKey u" "v \<noteq> []"
  proof -
    have "\<not> sync_completes t" if "?pass2 = Threw d" for d
      using that Completed by (simp add: sync_completes_def)
    then obtain d where d: "?pass2 = Completed d"
      using \<open>sync_completes t\<close> by (cases ?pass2) auto
    have "getItem d (getKey u) = Some v"
      using second_pass_copies [OF d s' key] want that by simp
    then show ?thesis using d by simp
  qed
  have lb: "localStorage (snd (sync_browser t)) = state_of ?pass2b"
    using Completed by (simp add: sync_browser_def split: attempt.splits)
  have onlyb: "(getItem (state_of ?pass2b) (getKey u) = None \<or>
                getItem (state_of ?pass2b) (getKey u) = Some v) \<and>
               (getItem (state_of ?pass2b) (getKey u) = Some v \<longrightarrow> v \<noteq> [])"
    using second_pass_only [OF assms(1) s', of ?A "storage_keys s'"] by simp
  have copiesb: "getItem (state_of ?pass2b) (getKey u) = Some v"
    if "fst (sync_browser t)" "v \<noteq> []"
  proof -
    have "\<not> fst (sync_browser t)" if "?pass2b = Threw d" for d
      using that Completed by (simp add: sync_browser_def)
    then obtain d where d: "?pass2b = Completed d"
      using \<open>fst (sync_browser t)\<close> by (cases ?pass2b) auto
    have "getItem d (getKey u) = Some v"
      using second_pass_copies [OF d s' key] that by simp
    then show ?thesis using d by simp
  qed
  show ?thesis using only copies onlyb copiesb l' lb by auto
qed

theorem sync_secondary_only_witness:
  "getItem (localStorage diverged) (getKey ''users'') = None \<and>
   getItem (sessionStorage diverged) (getKey ''users'') = Some ''[1]'' \<and>
   isPersistentKey ''users'' \<and> sync_completes diverged \<and> fst (sync_browser diverged) \<and>
   getItem (localStorage (sync diverged)) (getKey ''users'') = Some ''[1]'' \<and>
   getItem (localStorage (snd (sync_browser diverged))) (getKey ''users'') = Some ''[1]'' \<and>
   getItem (localStorage diverged) (getKey ''tempFlag'') = None \<and>
   getItem (sessionStorage diverged) (getKey ''tempFlag'') = Some ''1'' \<and>
   \<not> isPersistentKey ''tempFlag'' \<and>
   getItem (localStorage (sync diverged)) (getKey ''tempFlag'') = None"
proof -
  have a: "getItem (localStorage diverged) (getKey ''users'') = None"
    and b: "getItem (sessionStorage diverged) (getKey ''users'') = Some ''[1]''"
    and c: "getItem (localStorage diverged) (getKey ''tempFlag'') = None"
    and d: "getItem (sessionStorage diverged) (getKey ''tempFlag'') = Some ''1''"
    by (simp_all add: diverged_def storage_defs)
  have p: "isPersistentKey ''users''" "\<not> isPersistentKey ''tempFlag''"
    by (simp_all add: isPersistentKey_def persistentKeys_def)
  have r: "sync_completes diverged" "fst (sync_browser diverged)"
    by (simp_all add: sync_completes_def sync_browser_def diverged_def storage_defs)
  from sync_secondary_only [OF a b] sync_secondary_only [OF c d] a b c d p r
  show ?thesis by auto
qed

text \<open>
  C8. \<open>sync()\<close> is idempotent: for all contents of the two tiers, and whichever writes
  the tiers refuse, running \<open>sync()\<close> twice leaves both tiers exactly as running it
  once.
\<close>

theorem sync_idempotent: "sync (sync t) = sync t"
proof (cases "copy_entries (\<lambda>key. True) (localStorage t) (storage_keys (localStorage t))
                (sessionStorage t)")
  case (Threw s')
  then have one: "sync t = t\<lparr>sessionStorage := s'\<rparr>" by (simp add: sync_def)
  have "copy_entries (\<lambda>key. True) (localStorage t) (storage_keys (localStorage t)) s' = Threw s'"
    using Threw by (rule copy_entries_threw_again)
  then show ?thesis using one by (simp add: sync_def)
next
  case (Completed s')
  let ?P = "\<lambda>key. isPersistentKey (replace_first storagePrefix key)"
  let ?pass2 = "copy_entries ?P s' (storage_keys s') (localStorage t)"
  define l' where "l' = state_of ?pass2"
  have one: "sync t = \<lparr>localStorage = l', sessionStorage = s'\<rparr>"
    using Completed by (simp add: sync_def l'_def)
  have mirrored: "getItem s' k = Some v"
    if "k \<in> set (storage_keys l')" "k \<noteq> []" "getItem l' k = Some v" "v \<noteq> []" for k v
  proof -
    from copy_entries_getItem [of ?P s' "storage_keys s'" "localStorage t" k]
    consider "getItem l' k = getItem (localStorage t) k" | "getItem l' k = getItem s' k"
      by (auto simp: l'_def)
    then show ?thesis
    proof cases
      case 1
      then have "getItem (localStorage t) k = Some v" using that by simp
      then show ?thesis
        using copy_entries_completed [OF Completed, of k v] getItem_in_keys that by simp
    next
      case 2
      then show ?thesis using that by simp
    qed
  qed
  have first: "state_of (copy_entries (\<lambda>key. True) l' (storage_keys l') s') = s'"
    by (rule copy_entries_noop) (use mirrored in auto)
  have second: "state_of (copy_entries ?P s' (storage_keys s') l') = l'"
  proof (cases ?pass2)
    case (Threw d)
    then have "d = l'" by (simp add: l'_def)
    then show ?thesis using copy_entries_threw_again [OF Threw] by simp
  next
    case (Completed d)
    then have d: "d = l'" by (simp add: l'_def)
    show ?thesis
      by (rule copy_entries_noop) (use copy_entries_completed [OF Completed] d in auto)
  qed
  show ?thesis
  proof (cases "copy_entries (\<lambda>key. True) l' (storage_keys l') s'")
    case (Threw d)
    then have "d = s'" using first by simp
    then show ?thesis using one Threw by (simp add: sync_def)
  next
    case (Completed d)
    then have "d = s'" using first by simp
    then show ?thesis using one Completed second by (simp add: sync_def)
  qed
qed

theorem sync_idempotent_witness:
  "sync (sync diverged) = sync diverged \<and>
   getItem (sessionStorage (sync diverged)) (getKey ''point-storage'') = Some ''{}''"
  using sync_idempotent [of diverged] by (simp add: sync_def diverged_def storage_defs)

end
